theory Spec2Isabelle
  imports Complex_Main
begin

section \<open>JavaScript numbers\<close>

text \<open>
  Every \<^verbatim>\<open>number\<close> of the program is an IEEE double. The model keeps the three
  special values a division can produce and treats the finite values as exact reals:
  rounding error, overflow of finite results and the sign of zero are not modelled.
\<close>

datatype jsnum = Num real | PosInf | NegInf | NaN

instantiation jsnum :: "{zero, plus, uminus, minus, times, inverse, ord}"
begin

definition zero_jsnum :: jsnum where
  "zero_jsnum = Num 0"

fun plus_jsnum :: "jsnum \<Rightarrow> jsnum \<Rightarrow> jsnum" where
  "plus_jsnum (Num a) (Num b) = Num (a + b)"
| "plus_jsnum NaN _ = NaN"
| "plus_jsnum _ NaN = NaN"
| "plus_jsnum PosInf NegInf = NaN"
| "plus_jsnum NegInf PosInf = NaN"
| "plus_jsnum PosInf _ = PosInf"
| "plus_jsnum _ PosInf = PosInf"
| "plus_jsnum NegInf _ = NegInf"
| "plus_jsnum _ NegInf = NegInf"

fun uminus_jsnum :: "jsnum \<Rightarrow> jsnum" where
  "uminus_jsnum (Num a) = Num (- a)"
| "uminus_jsnum PosInf = NegInf"
| "uminus_jsnum NegInf = PosInf"
| "uminus_jsnum NaN = NaN"

definition minus_jsnum :: "jsnum \<Rightarrow> jsnum \<Rightarrow> jsnum" where
  "minus_jsnum a b = a + (- b)"

fun times_jsnum :: "jsnum \<Rightarrow> jsnum \<Rightarrow> jsnum" where
  "times_jsnum (Num a) (Num b) = Num (a * b)"
| "times_jsnum NaN _ = NaN"
| "times_jsnum _ NaN = NaN"
| "times_jsnum (Num a) PosInf = (if a = 0 then NaN else if 0 < a then PosInf else NegInf)"
| "times_jsnum (Num a) NegInf = (if a = 0 then NaN else if 0 < a then NegInf else PosInf)"
| "times_jsnum PosInf (Num b) = (if b = 0 then NaN else if 0 < b then PosInf else NegInf)"
| "times_jsnum NegInf (Num b) = (if b = 0 then NaN else if 0 < b then NegInf else PosInf)"
| "times_jsnum PosInf PosInf = PosInf"
| "times_jsnum PosInf NegInf = NegInf"
| "times_jsnum NegInf PosInf = NegInf"
| "times_jsnum NegInf NegInf = PosInf"

fun divide_jsnum :: "jsnum \<Rightarrow> jsnum \<Rightarrow> jsnum" where
  "divide_jsnum (Num a) (Num b) =
     (if b \<noteq> 0 then Num (a / b)
      else if a = 0 then NaN else if 0 < a then PosInf else NegInf)"
| "divide_jsnum NaN _ = NaN"
| "divide_jsnum _ NaN = NaN"
| "divide_jsnum (Num a) PosInf = Num 0"
| "divide_jsnum (Num a) NegInf = Num 0"
| "divide_jsnum PosInf (Num b) = (if 0 \<le> b then PosInf else NegInf)"
| "divide_jsnum NegInf (Num b) = (if 0 \<le> b then NegInf else PosInf)"
| "divide_jsnum PosInf PosInf = NaN"
| "divide_jsnum PosInf NegInf = NaN"
| "divide_jsnum NegInf PosInf = NaN"
| "divide_jsnum NegInf NegInf = NaN"

definition inverse_jsnum :: "jsnum \<Rightarrow> jsnum" where
  "inverse_jsnum a = divide (Num 1) a"

fun less_jsnum :: "jsnum \<Rightarrow> jsnum \<Rightarrow> bool" where
  "less_jsnum (Num a) (Num b) = (a < b)"
| "less_jsnum NaN _ = False"
| "less_jsnum _ NaN = False"
| "less_jsnum _ NegInf = False"
| "less_jsnum PosInf _ = False"
| "less_jsnum NegInf _ = True"
| "less_jsnum _ PosInf = True"

fun less_eq_jsnum :: "jsnum \<Rightarrow> jsnum \<Rightarrow> bool" where
  "less_eq_jsnum (Num a) (Num b) = (a \<le> b)"
| "less_eq_jsnum NaN _ = False"
| "less_eq_jsnum _ NaN = False"
| "less_eq_jsnum NegInf _ = True"
| "less_eq_jsnum _ PosInf = True"
| "less_eq_jsnum _ NegInf = False"
| "less_eq_jsnum PosInf _ = False"

instance ..

end

text \<open>\<^verbatim>\<open>Number.isFinite\<close>: neither an infinity nor NaN.\<close>

fun isFinite :: "jsnum \<Rightarrow> bool" where
  "isFinite (Num a) = True"
| "isFinite _ = False"

text \<open>
  \<^verbatim>\<open>Math.max(...xs)\<close> and \<^verbatim>\<open>Math.min(...xs)\<close>: the scan starts from the
  infinity of the other sign, and one NaN argument makes the result NaN.
\<close>

definition max_step :: "jsnum \<Rightarrow> jsnum \<Rightarrow> jsnum" where
  "max_step highest x = (if highest = NaN \<or> x = NaN then NaN else if highest < x then x else highest)"

definition min_step :: "jsnum \<Rightarrow> jsnum \<Rightarrow> jsnum" where
  "min_step lowest x = (if lowest = NaN \<or> x = NaN then NaN else if x < lowest then x else lowest)"

definition Math_max :: "jsnum list \<Rightarrow> jsnum" where
  "Math_max xs = foldl max_step NegInf xs"

definition Math_min :: "jsnum list \<Rightarrow> jsnum" where
  "Math_min xs = foldl min_step PosInf xs"

text \<open>
  \<^verbatim>\<open>Number(x.toFixed(d))\<close>: the decimal string with \<open>d\<close> fraction digits, read back
  as a number. \<^verbatim>\<open>toFixed\<close> takes the sign off, picks the integer \<open>n\<close> with
  \<open>n / 10^d\<close> nearest to the magnitude (the larger one on a tie), and prints magnitudes
  from \<open>10^21\<close> on, the infinities and NaN as \<^verbatim>\<open>String(x)\<close>, which reads back as \<open>x\<close>.
\<close>

definition toFixed :: "nat \<Rightarrow> jsnum \<Rightarrow> jsnum" where
  "toFixed d x =
     (case x of
        Num r \<Rightarrow>
          if 10 ^ 21 \<le> \<bar>r\<bar> then Num r
          else Num (sgn r * real_of_int \<lfloor>\<bar>r\<bar> * 10 ^ d + 1 / 2\<rfloor> / 10 ^ d)
      | _ \<Rightarrow> x)"

section \<open>The probe engine (services/speedTest.ts)\<close>

record SpeedResult =
  timestamp :: jsnum
  download :: jsnum
  upload :: jsnum
  latency :: jsnum
  jitter :: jsnum

text \<open>
  What the network and the clock give one attempt. A latency round-trip either returns,
  with the two readings of \<^verbatim>\<open>performance.now()\<close> around it, or throws, and the
  handler draws \<^verbatim>\<open>Math.random()\<close>. A download either delivers a blob (readings before
  the request and after the body, and \<^verbatim>\<open>blob.size\<close>) or throws. An upload either gets
  a response (the readings and \<^verbatim>\<open>res.ok\<close>) or throws.
\<close>

datatype ping_outcome = PingReturned real real | PingThrew real

datatype download_outcome = Downloaded real real nat | DownloadThrew

datatype upload_outcome = Responded real real bool | UploadThrew

record network =
  ping :: "nat \<Rightarrow> ping_outcome"
  fetched :: "nat \<Rightarrow> download_outcome"
  posted :: "nat \<Rightarrow> upload_outcome"
  date_now :: int

text \<open>
  The upload payload is 1 MiB of random bytes, filled in chunks of 65536 bytes. Only its
  size enters the result.
\<close>

definition uploadSize :: nat where
  "uploadSize = 1024 * 1024"

fun latencySample :: "ping_outcome \<Rightarrow> jsnum" where
  "latencySample (PingReturned start finish) = Num finish - Num start"
| "latencySample (PingThrew rnd) = Num 20 + Num rnd * Num 10"

text \<open>
  The three measuring loops, \<^verbatim>\<open>for (let i = 0; i < n; i++)\<close> with one
  \<^verbatim>\<open>push\<close> per round: \<open>i\<close> is the counter and the list the array so far.
\<close>

function latencyLoop :: "network \<Rightarrow> nat \<Rightarrow> jsnum list \<Rightarrow> jsnum list" where
  "latencyLoop net i latencies =
     (if i < 5 then latencyLoop net (i + 1) (latencies @ [latencySample (ping net i)])
      else latencies)"
  by pat_completeness auto
termination
  by (relation "measure (\<lambda>(net, i, latencies). 5 - i)") auto

declare latencyLoop.simps [simp del]

definition latencies :: "network \<Rightarrow> jsnum list" where
  "latencies net = latencyLoop net 0 []"

definition avgLatency :: "network \<Rightarrow> jsnum" where
  "avgLatency net = foldl (+) 0 (latencies net) / Num (real (length (latencies net)))"

definition latencyJitter :: "network \<Rightarrow> jsnum" where
  "latencyJitter net = Math_max (latencies net) - Math_min (latencies net)"

fun downloadSample :: "download_outcome \<Rightarrow> jsnum" where
  "downloadSample (Downloaded start finish blobSize) =
     (let durationInSeconds = (Num finish - Num start) / Num 1000;
          sizeInBits = Num (real blobSize) * Num 8;
          mbps = (sizeInBits / Num 1024 / Num 1024) / durationInSeconds
      in mbps)"
| "downloadSample DownloadThrew = 0"

function downloadLoop :: "network \<Rightarrow> nat \<Rightarrow> jsnum list \<Rightarrow> jsnum list" where
  "downloadLoop net i downloadSpeeds =
     (if i < 3 then downloadLoop net (i + 1) (downloadSpeeds @ [downloadSample (fetched net i)])
      else downloadSpeeds)"
  by pat_completeness auto
termination
  by (relation "measure (\<lambda>(net, i, downloadSpeeds). 3 - i)") auto

declare downloadLoop.simps [simp del]

definition downloadSpeeds :: "network \<Rightarrow> jsnum list" where
  "downloadSpeeds net = downloadLoop net 0 []"

definition downloadDenominator :: "network \<Rightarrow> nat" where
  "downloadDenominator net = max 1 (length (filter (\<lambda>s. 0 < s) (downloadSpeeds net)))"

definition avgDownload :: "network \<Rightarrow> jsnum" where
  "avgDownload net = foldl (+) 0 (downloadSpeeds net) / Num (real (downloadDenominator net))"

fun uploadSample :: "jsnum \<Rightarrow> upload_outcome \<Rightarrow> jsnum" where
  "uploadSample avgDl (Responded start finish ok) =
     (if \<not> ok then avgDl * Num (4 / 10)
      else
        let durationInSeconds = (Num finish - Num start) / Num 1000;
            mbps = ((Num (real uploadSize) * Num 8) / Num 1024 / Num 1024) / durationInSeconds
        in mbps)"
| "uploadSample avgDl UploadThrew = avgDl * Num (4 / 10)"

function uploadLoop :: "network \<Rightarrow> jsnum \<Rightarrow> nat \<Rightarrow> jsnum list \<Rightarrow> jsnum list" where
  "uploadLoop net avgDl i uploadSpeeds =
     (if i < 2 then uploadLoop net avgDl (i + 1) (uploadSpeeds @ [uploadSample avgDl (posted net i)])
      else uploadSpeeds)"
  by pat_completeness auto
termination
  by (relation "measure (\<lambda>(net, avgDl, i, uploadSpeeds). 2 - i)") auto

declare uploadLoop.simps [simp del]

definition uploadSpeeds :: "network \<Rightarrow> jsnum list" where
  "uploadSpeeds net = uploadLoop net (avgDownload net) 0 []"

definition avgUpload :: "network \<Rightarrow> jsnum" where
  "avgUpload net = foldl (+) 0 (uploadSpeeds net) / Num (real (length (uploadSpeeds net)))"

definition runSpeedTest :: "network \<Rightarrow> SpeedResult" where
  "runSpeedTest net =
     \<lparr> timestamp = Num (real_of_int (date_now net)),
       download = toFixed 2 (avgDownload net),
       upload = toFixed 2 (avgUpload net),
       latency = toFixed 1 (avgLatency net),
       jitter = toFixed 1 (latencyJitter net) \<rparr>"

text \<open>
  The download average in the words of the specification: the sum of the attempt
  throughputs over the number of attempts that succeeded, with a floor of 1. It is
  compared with \<open>avgDownload\<close> below.
\<close>

definition spec_successfulAttempts :: "network \<Rightarrow> nat" where
  "spec_successfulAttempts net = length (filter (\<lambda>i. fetched net i \<noteq> DownloadThrew) [0..<3])"

definition spec_avgDownload :: "network \<Rightarrow> jsnum" where
  "spec_avgDownload net =
     foldl (+) 0 (downloadSpeeds net) / Num (real (max 1 (spec_successfulAttempts net)))"

section \<open>The insight service (services/geminiService.ts)\<close>

datatype insight_status = Excellent | Good | Fair | Poor

record NetworkInsight =
  status :: insight_status
  summary :: string
  recommendations :: "string list"

text \<open>
  \<^verbatim>\<open>JSON.parse\<close> returns any JSON value, and the service returns it unchecked, so at run
  time the result is one of the two fixed triples or whatever the text parsed to.
\<close>

datatype json =
    JNull
  | JBool bool
  | JNumber jsnum
  | JString string
  | JArray "json list"
  | JObject "(string \<times> json) list"

datatype insight_value = Triple NetworkInsight | Parsed json

text \<open>
  The prompt carries \<^verbatim>\<open>history.slice(-20)\<close> and the download and upload of the last
  entry; its fixed wording is left out. The collaborator either rejects the call or
  answers with a response whose \<^verbatim>\<open>text\<close> may be undefined.
\<close>

record insight_prompt =
  recent :: "SpeedResult list"
  currentDownload :: jsnum
  currentUpload :: jsnum

datatype ai_response = Rejected | Response "string option"

text \<open>\<^verbatim>\<open>xs.slice(-n)\<close>: the last \<open>n\<close> elements, all of them when there are fewer.\<close>

definition slice_last :: "nat \<Rightarrow> 'a list \<Rightarrow> 'a list" where
  "slice_last n xs = drop (length xs - n) xs"

text \<open>\<^verbatim>\<open>text.trim()\<close>, on the ASCII white space and line terminators.\<close>

definition isWhiteSpace :: "char \<Rightarrow> bool" where
  "isWhiteSpace c = (c \<in> set [CHR 0x09, CHR 0x0A, CHR 0x0B, CHR 0x0C, CHR 0x0D, CHR '' ''])"

definition trim :: "string \<Rightarrow> string" where
  "trim t = rev (dropWhile isWhiteSpace (rev (dropWhile isWhiteSpace t)))"

definition insufficientData :: NetworkInsight where
  "insufficientData =
     \<lparr> status = Fair,
       summary = ''Insufficient data to analyze.'',
       recommendations = [''Keep monitoring to gather trends.''] \<rparr>"

definition unableToConnect :: NetworkInsight where
  "unableToConnect =
     \<lparr> status = Good,
       summary = ''Unable to connect to AI analyzer at the moment.'',
       recommendations = [''Verify your ISP plan if speeds seem low.''] \<rparr>"

definition buildPrompt :: "SpeedResult list \<Rightarrow> insight_prompt" where
  "buildPrompt hist =
     \<lparr> recent = slice_last 20 hist,
       currentDownload = download (hist ! (length hist - 1)),
       currentUpload = upload (hist ! (length hist - 1)) \<rparr>"

text \<open>
  The result comes with the prompts that were sent to the collaborator, in order: the
  empty list says that it was not called. \<open>generateContent\<close> is the external service and
  \<open>JSON_parse\<close> the platform's parser (\<open>None\<close> when it throws). The prompt is built only
  for a history that is not empty, so its reads of the last entry are in range.
\<close>

definition getNetworkInsights ::
  "(insight_prompt \<Rightarrow> ai_response) \<Rightarrow> (string \<Rightarrow> json option) \<Rightarrow> SpeedResult list
     \<Rightarrow> insight_value \<times> insight_prompt list" where
  "getNetworkInsights generateContent JSON_parse hist =
     (if length hist = 0 then (Triple insufficientData, [])
      else
        let prompt = buildPrompt hist
        in
          (case generateContent prompt of
             Rejected \<Rightarrow> (Triple unableToConnect, [prompt])
           | Response text \<Rightarrow>
               (case text of
                  None \<Rightarrow> (Triple unableToConnect, [prompt])
                | Some t \<Rightarrow>
                    if t = [] then (Triple unableToConnect, [prompt])
                    else
                      (case JSON_parse (trim t) of
                         None \<Rightarrow> (Triple unableToConnect, [prompt])
                       | Some v \<Rightarrow> (Parsed v, [prompt])))))"

section \<open>The scheduler and the history (App.tsx)\<close>

definition TEST_INTERVAL_MS :: int where
  "TEST_INTERVAL_MS = 10 * 60 * 1000"

text \<open>
  A call of \<^verbatim>\<open>performTest\<close> that passed the guard is suspended at one of its two
  \<^verbatim>\<open>await\<close>s: at the probe, holding the \<^verbatim>\<open>history\<close> its closure captured, or at the
  insight service, whose answer it will store.
\<close>

datatype cycle = AwaitingProbe "SpeedResult list" | AwaitingInsights insight_value

record app_state =
  history :: "SpeedResult list"
  isTesting :: bool
  insights :: "insight_value option"
  nextRun :: int
  timeLeft :: int
  omnispeed_history :: "SpeedResult list"
  cycles :: "cycle list"

text \<open>
  \<^verbatim>\<open>setHistory\<close> together with the effect that depends on \<^verbatim>\<open>[history]\<close>: every change
  of the history writes \<^verbatim>\<open>history.slice(-100)\<close> to local storage under
  \<^verbatim>\<open>omnispeed_history\<close>.
\<close>

definition setHistory :: "(SpeedResult list \<Rightarrow> SpeedResult list) \<Rightarrow> app_state \<Rightarrow> app_state" where
  "setHistory f s =
     (let h = f (history s) in s\<lparr> history := h, omnispeed_history := slice_last 100 h \<rparr>)"

text \<open>
  \<^verbatim>\<open>performTest\<close> up to its first \<^verbatim>\<open>await\<close>. The callback closes over
  \<^verbatim>\<open>[history, isTesting]\<close> of the render that made it: \<open>rendered\<close> is that render's state
  and \<open>s\<close> the state the call acts on.
\<close>

definition performTest :: "app_state \<Rightarrow> app_state \<Rightarrow> app_state" where
  "performTest rendered s =
     (if isTesting rendered then s
      else s\<lparr> isTesting := True, cycles := cycles s @ [AwaitingProbe (history rendered)] \<rparr>)"

text \<open>
  The button and the countdown both hold the callback of the latest render (the
  \<^verbatim>\<open>onClick\<close> prop and the interval effect, whose dependencies include
  \<^verbatim>\<open>performTest\<close>, are renewed with it).
\<close>

definition manualTrigger :: "app_state \<Rightarrow> app_state" where
  "manualTrigger s = performTest s s"

definition tick :: "int \<Rightarrow> app_state \<Rightarrow> app_state" where
  "tick now s =
     (let remaining = max 0 (nextRun s - now);
          s1 = s\<lparr> timeLeft := remaining \<rparr>
      in if remaining \<le> 0 then performTest s1 s1 else s1)"

text \<open>
  The probe returns to the suspended call: the result is appended, the deadline re-armed,
  and the insight service is asked about the captured history plus the result.
\<close>

definition probeReturned ::
  "(insight_prompt \<Rightarrow> ai_response) \<Rightarrow> (string \<Rightarrow> json option) \<Rightarrow> SpeedResult \<Rightarrow> int
     \<Rightarrow> app_state \<Rightarrow> app_state" where
  "probeReturned generateContent JSON_parse result now s =
     (case cycles s of
        AwaitingProbe captured # rest \<Rightarrow>
          let s1 = setHistory (\<lambda>prev. prev @ [result]) s;
              s2 = s1\<lparr> nextRun := now + TEST_INTERVAL_MS \<rparr>;
              currentHistory = captured @ [result]
          in
            if 1 \<le> length currentHistory
            then s2\<lparr> cycles :=
                   AwaitingInsights (fst (getNetworkInsights generateContent JSON_parse currentHistory))
                     # rest \<rparr>
            else s2\<lparr> isTesting := False, cycles := rest \<rparr>
      | _ \<Rightarrow> s)"

text \<open>The insight service returns: its answer is stored and \<^verbatim>\<open>finally\<close> clears the flag.\<close>

definition insightsReturned :: "app_state \<Rightarrow> app_state" where
  "insightsReturned s =
     (case cycles s of
        AwaitingInsights aiResponse # rest \<Rightarrow>
          s\<lparr> insights := Some aiResponse, isTesting := False, cycles := rest \<rparr>
      | _ \<Rightarrow> s)"

text \<open>
  Mounting: the first render has the empty history and a clear flag; the effects load
  the saved history (if it parses) and call the first render's \<^verbatim>\<open>performTest\<close>.
\<close>

definition firstRender :: "int \<Rightarrow> app_state" where
  "firstRender now =
     \<lparr> history = [], isTesting = False, insights = None,
       nextRun = now + TEST_INTERVAL_MS, timeLeft = TEST_INTERVAL_MS,
       omnispeed_history = [], cycles = [] \<rparr>"

definition mount :: "SpeedResult list option \<Rightarrow> int \<Rightarrow> app_state" where
  "mount saved now =
     (let s0 = firstRender now;
          s1 = (case saved of None \<Rightarrow> s0 | Some parsed \<Rightarrow> setHistory (\<lambda>_. parsed) s0)
      in performTest s0 s1)"

datatype event =
    Click
  | Tick int
  | ProbeReturned "insight_prompt \<Rightarrow> ai_response" "string \<Rightarrow> json option" SpeedResult int
  | InsightsReturned

fun step :: "event \<Rightarrow> app_state \<Rightarrow> app_state" where
  "step Click s = manualTrigger s"
| "step (Tick now) s = tick now s"
| "step (ProbeReturned generateContent JSON_parse result now) s =
     probeReturned generateContent JSON_parse result now s"
| "step InsightsReturned s = insightsReturned s"

definition run :: "event list \<Rightarrow> app_state \<Rightarrow> app_state" where
  "run events s = foldl (\<lambda>st e. step e st) s events"

section \<open>Auxiliary definitions and concrete runs\<close>

text \<open>The elapsed or synthetic milliseconds of a latency attempt, as a real.\<close>

fun latencyMs :: "ping_outcome \<Rightarrow> real" where
  "latencyMs (PingReturned start finish) = finish - start"
| "latencyMs (PingThrew rnd) = 20 + rnd * 10"

text \<open>
  A run with failures of every kind: two of five round-trips return (35 ms and 12 ms)
  and three throw, the second download delivers 13107200 bytes in one second (100 Mbps)
  and the other two throw, the first upload takes one second and the second is answered
  with an error status.
\<close>

definition flaky :: network where
  "flaky =
     \<lparr> ping = (\<lambda>i. if i = 0 then PingReturned 0 35 else if i = 2 then PingReturned 100 112
                    else PingThrew (1 / 2)),
       fetched = (\<lambda>i. if i = 1 then Downloaded 1000 2000 13107200 else DownloadThrew),
       posted = (\<lambda>i. if i = 0 then Responded 3000 4000 True else Responded 4000 4500 False),
       date_now = 1700000000000 \<rparr>"

text \<open>
  A quiet line: four round-trips of 10 ms and one of 10.04 ms, every transfer throws.
  The mean 10.008 and the range 0.04 are not multiples of a tenth.
\<close>

definition steady :: network where
  "steady =
     \<lparr> ping = (\<lambda>i. if i = 4 then PingReturned 400 (41004 / 100)
                    else PingReturned (100 * real i) (100 * real i + 10)),
       fetched = (\<lambda>i. DownloadThrew),
       posted = (\<lambda>i. UploadThrew),
       date_now = 1700000000000 \<rparr>"

text \<open>A total outage: every request throws.\<close>

definition outage :: network where
  "outage =
     \<lparr> ping = (\<lambda>i. PingThrew (1 / 2)),
       fetched = (\<lambda>i. DownloadThrew),
       posted = (\<lambda>i. UploadThrew),
       date_now = 1700000000000 \<rparr>"

text \<open>
  The first download delivers 100 Mbps, the second is answered with an empty body
  (\<^verbatim>\<open>blob.size = 0\<close>) after one second, the third throws.
\<close>

definition emptyBody :: network where
  "emptyBody =
     \<lparr> ping = (\<lambda>i. PingReturned (100 * real i) (100 * real i + 20)),
       fetched = (\<lambda>i. if i = 0 then Downloaded 1000 2000 13107200
                       else if i = 1 then Downloaded 2000 3000 0 else DownloadThrew),
       posted = (\<lambda>i. UploadThrew),
       date_now = 1700000000000 \<rparr>"

text \<open>
  A clock of coarse resolution (100 ms, as browsers give it when they protect against
  fingerprinting): the round-trips and the first download of 600000 bytes each start and
  end on the same reading of \<^verbatim>\<open>performance.now()\<close>.
\<close>

definition coarseClock :: network where
  "coarseClock =
     \<lparr> ping = (\<lambda>i. PingReturned 900 900),
       fetched = (\<lambda>i. if i = 0 then Downloaded 1000 1000 600000
                       else if i = 1 then Downloaded 1000 1100 600000
                       else Downloaded 1100 1200 600000),
       posted = (\<lambda>i. if i = 0 then Responded 2000 3000 True else Responded 3000 4000 True),
       date_now = 1700000000000 \<rparr>"

text \<open>
  Collaborators that fail: one that rejects every call, one whose response has no text,
  and one that answers with a page of HTML; and a parser that accepts only the text
  \<^verbatim>\<open>null\<close>, which is enough to read the HTML page as unparseable.
\<close>

definition rejecting :: "insight_prompt \<Rightarrow> ai_response" where
  "rejecting p = Rejected"

definition silent :: "insight_prompt \<Rightarrow> ai_response" where
  "silent p = Response None"

definition garbled :: "insight_prompt \<Rightarrow> ai_response" where
  "garbled p = Response (Some '' <html>502 Bad Gateway</html> '')"

definition parseNullOnly :: "string \<Rightarrow> json option" where
  "parseNullOnly t = (if t = ''null'' then Some JNull else None)"

text \<open>A saved history of 100 samples, and the state after mounting with it.\<close>

definition hundredSaved :: "SpeedResult list" where
  "hundredSaved = replicate 100 (runSpeedTest outage)"

definition mountedFull :: app_state where
  "mountedFull = mount (Some hundredSaved) 0"

text \<open>
  Two invariants of the scheduler: the persisted copy is the last 100 entries of the
  history, and at most one call of \<^verbatim>\<open>performTest\<close> is suspended, one exactly when
  the flag is set.
\<close>

definition stored_ok :: "app_state \<Rightarrow> bool" where
  "stored_ok s \<longleftrightarrow> omnispeed_history s = slice_last 100 (history s)"

definition flight_ok :: "app_state \<Rightarrow> bool" where
  "flight_ok s \<longleftrightarrow> length (cycles s) \<le> 1 \<and> (isTesting s \<longleftrightarrow> cycles s \<noteq> [])"

section \<open>Arithmetic of JavaScript numbers\<close>

lemma upt_0_5: "[0..<5] = [0, 1, 2, 3, 4]"
  by (simp add: upt_rec)

lemma upt_0_3: "[0..<3] = [0, 1, 2]"
  by (simp add: upt_rec)

lemma upt_0_2: "[0..<2] = [0, 1]"
  by (simp add: upt_rec)

lemma zero_plus_jsnum: "0 + (x::jsnum) = x"
  by (cases x) (simp_all add: zero_jsnum_def)

lemma minus_Num [simp]: "Num a - Num b = Num (a - b)"
  by (simp add: minus_jsnum_def)

lemma map_Num_eq: "map Num xs = map Num ys \<Longrightarrow> xs = ys"
proof -
  have "inj Num"
    by (simp add: inj_on_def)
  then show "map Num xs = map Num ys \<Longrightarrow> xs = ys"
    by (simp only: inj_map_eq_map)
qed

lemma foldl_plus_Num: "foldl (+) (Num a) (map Num vs) = Num (a + sum_list vs)"
  by (induction vs arbitrary: a) (simp_all add: add.assoc)

lemma foldl_max_step_Num: "foldl max_step (Num a) (map Num vs) = Num (fold max vs a)"
  by (induction vs arbitrary: a) (simp_all add: max_step_def max_def)

lemma foldl_min_step_Num: "foldl min_step (Num a) (map Num vs) = Num (fold min vs a)"
  by (induction vs arbitrary: a) (simp_all add: min_step_def min_def)

lemma Math_max_Num:
  assumes "vs \<noteq> []"
  shows "Math_max (map Num vs) = Num (Max (set vs))"
proof -
  from assms obtain v rest where vs: "vs = v # rest"
    by (cases vs) auto
  have "Math_max (map Num vs) = foldl max_step (Num v) (map Num rest)"
    by (simp add: vs Math_max_def max_step_def)
  also have "\<dots> = Num (fold max rest v)"
    by (rule foldl_max_step_Num)
  also have "fold max rest v = Max (set vs)"
    unfolding vs by (rule Max.set_eq_fold [symmetric])
  finally show ?thesis .
qed

lemma Math_min_Num:
  assumes "vs \<noteq> []"
  shows "Math_min (map Num vs) = Num (Min (set vs))"
proof -
  from assms obtain v rest where vs: "vs = v # rest"
    by (cases vs) auto
  have "Math_min (map Num vs) = foldl min_step (Num v) (map Num rest)"
    by (simp add: vs Math_min_def min_step_def)
  also have "\<dots> = Num (fold min rest v)"
    by (rule foldl_min_step_Num)
  also have "fold min rest v = Min (set vs)"
    unfolding vs by (rule Min.set_eq_fold [symmetric])
  finally show ?thesis .
qed

section \<open>The loops as maps over the attempt numbers\<close>

lemma latencyLoop_map:
  "i \<le> 5 \<Longrightarrow> latencyLoop net i acc = acc @ map (\<lambda>k. latencySample (ping net k)) [i..<5]"
proof (induction net i acc rule: latencyLoop.induct)
  case (1 net i acc)
  show ?case
  proof (cases "i < 5")
    case True
    with 1 show ?thesis
      by (subst latencyLoop.simps) (simp add: upt_conv_Cons)
  next
    case False
    with 1 show ?thesis
      by (subst latencyLoop.simps) simp
  qed
qed

lemma downloadLoop_map:
  "i \<le> 3 \<Longrightarrow> downloadLoop net i acc = acc @ map (\<lambda>k. downloadSample (fetched net k)) [i..<3]"
proof (induction net i acc rule: downloadLoop.induct)
  case (1 net i acc)
  show ?case
  proof (cases "i < 3")
    case True
    with 1 show ?thesis
      by (subst downloadLoop.simps) (simp add: upt_conv_Cons)
  next
    case False
    with 1 show ?thesis
      by (subst downloadLoop.simps) simp
  qed
qed

lemma uploadLoop_map:
  "i \<le> 2 \<Longrightarrow>
     uploadLoop net avgDl i acc = acc @ map (\<lambda>k. uploadSample avgDl (posted net k)) [i..<2]"
proof (induction net avgDl i acc rule: uploadLoop.induct)
  case (1 net avgDl i acc)
  show ?case
  proof (cases "i < 2")
    case True
    with 1 show ?thesis
      by (subst uploadLoop.simps) (simp add: upt_conv_Cons)
  next
    case False
    with 1 show ?thesis
      by (subst uploadLoop.simps) simp
  qed
qed

lemma latencies_map: "latencies net = map (\<lambda>i. latencySample (ping net i)) [0..<5]"
  by (simp add: latencies_def latencyLoop_map)

lemma downloadSpeeds_map: "downloadSpeeds net = map (\<lambda>i. downloadSample (fetched net i)) [0..<3]"
  by (simp add: downloadSpeeds_def downloadLoop_map)

lemma uploadSpeeds_map:
  "uploadSpeeds net = map (\<lambda>i. uploadSample (avgDownload net) (posted net i)) [0..<2]"
  by (simp add: uploadSpeeds_def uploadLoop_map)

section \<open>The latency phase\<close>

lemma latencySample_Num: "latencySample p = Num (latencyMs p)"
  by (cases p) simp_all

lemma latencies_Num: "latencies net = map Num (map (\<lambda>i. latencyMs (ping net i)) [0..<5])"
  by (simp add: latencies_map latencySample_Num)

text \<open>
  C3. The latency phase always has exactly five samples. An attempt that returned
  contributes its elapsed milliseconds; an attempt that threw contributes
  \<open>20 + Math.random() * 10\<close>, which lies between 20 and 30 since \<open>Math.random()\<close> lies
  in \<open>[0, 1)\<close>. However many attempts threw, the mean of the five samples is
  \<open>avgLatency\<close> and their maximum minus their minimum is the jitter of the phase, and the
  result's \<open>latency\<close> and \<open>jitter\<close> are that mean and that range at one decimal.
\<close>

theorem latency_phase_five_samples:
  assumes rnd: "\<And>i r. i < 5 \<Longrightarrow> ping net i = PingThrew r \<Longrightarrow> 0 \<le> r \<and> r < 1"
  shows "\<exists>vs. latencies net = map Num vs \<and> length vs = 5
           \<and> (\<forall>i<5. case ping net i of
                        PingReturned start finish \<Rightarrow> vs ! i = finish - start
                      | PingThrew r \<Rightarrow> 20 \<le> vs ! i \<and> vs ! i \<le> 30)
           \<and> avgLatency net = Num (sum_list vs / 5)
           \<and> latencyJitter net = Num (Max (set vs) - Min (set vs))
           \<and> latency (runSpeedTest net) = toFixed 1 (Num (sum_list vs / 5))
           \<and> jitter (runSpeedTest net) = toFixed 1 (Num (Max (set vs) - Min (set vs)))"
proof -
  define vs where "vs = map (\<lambda>i. latencyMs (ping net i)) [0..<5]"
  have lat: "latencies net = map Num vs"
    by (simp add: vs_def latencies_Num)
  have len: "length vs = 5"
    by (simp add: vs_def)
  then have ne: "vs \<noteq> []"
    by auto
  have nth: "vs ! i = latencyMs (ping net i)" if "i < 5" for i
    using that by (simp add: vs_def)
  have each: "case ping net i of
                PingReturned start finish \<Rightarrow> vs ! i = finish - start
              | PingThrew r \<Rightarrow> 20 \<le> vs ! i \<and> vs ! i \<le> 30" if "i < 5" for i
  proof (cases "ping net i")
    case (PingReturned start finish)
    then show ?thesis using nth [OF that] by simp
  next
    case (PingThrew r)
    with rnd [OF that] have "0 \<le> r \<and> r < 1" by simp
    then show ?thesis using PingThrew nth [OF that] by simp
  qed
  have avg: "avgLatency net = Num (sum_list vs / 5)"
    by (simp add: avgLatency_def lat len zero_jsnum_def foldl_plus_Num)
  have jit: "latencyJitter net = Num (Max (set vs) - Min (set vs))"
    by (simp add: latencyJitter_def lat Math_max_Num [OF ne] Math_min_Num [OF ne])
  have field_latency: "latency (runSpeedTest net) = toFixed 1 (Num (sum_list vs / 5))"
    by (simp add: runSpeedTest_def avg)
  have field_jitter: "jitter (runSpeedTest net) = toFixed 1 (Num (Max (set vs) - Min (set vs)))"
    by (simp add: runSpeedTest_def jit)
  from lat len each avg jit field_latency field_jitter show ?thesis
    by blast
qed

theorem latency_phase_five_samples_witness:
  "latencies flaky = [Num 35, Num 25, Num 12, Num 25, Num 25]
   \<and> avgLatency flaky = Num (122 / 5) \<and> latencyJitter flaky = Num 23
   \<and> latency (runSpeedTest flaky) = Num (122 / 5) \<and> jitter (runSpeedTest flaky) = Num 23
   \<and> avgLatency steady = Num (10008 / 1000) \<and> latencyJitter steady = Num (4 / 100)
   \<and> latency (runSpeedTest steady) = Num 10 \<and> jitter (runSpeedTest steady) = Num 0"
proof -
  have rnd: "0 \<le> r \<and> r < 1" if "i < 5" "ping flaky i = PingThrew r" for i r
    using that by (simp add: flaky_def split: if_splits)
  have samples: "latencies flaky = map Num [35, 25, 12, 25, 25]"
    by (simp add: latencies_map upt_0_5 flaky_def)
  from latency_phase_five_samples [of flaky] rnd obtain vs where vs:
    "latencies flaky = map Num vs"
    "avgLatency flaky = Num (sum_list vs / 5)"
    "latencyJitter flaky = Num (Max (set vs) - Min (set vs))"
    "latency (runSpeedTest flaky) = toFixed 1 (Num (sum_list vs / 5))"
    "jitter (runSpeedTest flaky) = toFixed 1 (Num (Max (set vs) - Min (set vs)))"
    by blast
  from vs(1) samples have "map Num vs = map Num [35, 25, 12, 25, 25]"
    by simp
  then have "vs = [35, 25, 12, 25, 25]"
    by (rule map_Num_eq)
  with vs have flaky_values:
    "avgLatency flaky = Num (122 / 5)" "latencyJitter flaky = Num 23"
    "latency (runSpeedTest flaky) = Num (122 / 5)" "jitter (runSpeedTest flaky) = Num 23"
    by (simp_all add: toFixed_def)
  have calm: "\<And>i r. i < 5 \<Longrightarrow> ping steady i = PingThrew r \<Longrightarrow> 0 \<le> r \<and> r < 1"
    by (simp add: steady_def split: if_splits)
  have samples': "latencies steady = map Num [10, 10, 10, 10, 1004 / 100]"
    by (simp add: latencies_map upt_0_5 steady_def)
  from latency_phase_five_samples [of steady] calm obtain ws where ws:
    "latencies steady = map Num ws"
    "avgLatency steady = Num (sum_list ws / 5)"
    "latencyJitter steady = Num (Max (set ws) - Min (set ws))"
    "latency (runSpeedTest steady) = toFixed 1 (Num (sum_list ws / 5))"
    "jitter (runSpeedTest steady) = toFixed 1 (Num (Max (set ws) - Min (set ws)))"
    by blast
  from ws(1) samples' have "map Num ws = map Num [10, 10, 10, 10, 1004 / 100]"
    by simp
  then have "ws = [10, 10, 10, 10, 1004 / 100]"
    by (rule map_Num_eq)
  with ws have steady_values:
    "avgLatency steady = Num (10008 / 1000)" "latencyJitter steady = Num (4 / 100)"
    "latency (runSpeedTest steady) = Num 10" "jitter (runSpeedTest steady) = Num 0"
    by (simp_all add: toFixed_def)
  from samples flaky_values steady_values show ?thesis
    by simp
qed

section \<open>The download phase\<close>

lemma downloadSpeeds_list:
  "downloadSpeeds net =
     [downloadSample (fetched net 0), downloadSample (fetched net 1), downloadSample (fetched net 2)]"
  by (simp add: downloadSpeeds_map upt_0_3)

lemma length_downloadSpeeds: "length (downloadSpeeds net) = 3"
  by (simp add: downloadSpeeds_map)

lemma nth_downloadSpeeds: "i < 3 \<Longrightarrow> downloadSpeeds net ! i = downloadSample (fetched net i)"
  by (simp add: downloadSpeeds_map)

lemma downloadDenominator_card:
  "downloadDenominator net = max 1 (card {i. i < 3 \<and> 0 < downloadSpeeds net ! i})"
  by (simp add: downloadDenominator_def length_filter_conv_card length_downloadSpeeds)

lemma sum_downloadSpeeds:
  "foldl (+) 0 (downloadSpeeds net) =
     downloadSpeeds net ! 0 + downloadSpeeds net ! 1 + downloadSpeeds net ! 2"
  by (simp add: downloadSpeeds_list zero_plus_jsnum)

lemma less_3_cases: "(i::nat) < 3 \<Longrightarrow> i = 0 \<or> i = 1 \<or> i = 2"
  by arith

lemma toFixed_zero: "toFixed d 0 = 0"
  by (simp add: toFixed_def zero_jsnum_def)

lemma toFixed_100: "toFixed 2 (Num 100) = Num 100"
  by (simp add: toFixed_def)

lemma all_throw_avgDownload:
  assumes "\<forall>i<3. fetched net i = DownloadThrew"
  shows "avgDownload net = 0"
proof -
  have "downloadSpeeds net = [0, 0, 0]"
    using assms by (simp add: downloadSpeeds_list)
  then show ?thesis
    by (simp add: avgDownload_def downloadDenominator_def zero_jsnum_def)
qed

lemma single_100_avgDownload:
  assumes i: "i < 3" and hit: "downloadSpeeds net ! i = Num 100"
    and rest: "\<forall>j<3. j \<noteq> i \<longrightarrow> fetched net j = DownloadThrew"
  shows "avgDownload net = Num 100"
proof -
  from hit i have s: "downloadSample (fetched net i) = Num 100"
    by (simp add: nth_downloadSpeeds)
  from less_3_cases [OF i] have
    "downloadSpeeds net = [Num 100, 0, 0] \<or> downloadSpeeds net = [0, Num 100, 0]
       \<or> downloadSpeeds net = [0, 0, Num 100]"
    using s rest by (auto simp: downloadSpeeds_list)
  then show ?thesis
    by (auto simp: avgDownload_def downloadDenominator_def zero_jsnum_def)
qed

lemma spec_successfulAttempts_filter:
  assumes "\<forall>i<3. fetched net i \<noteq> DownloadThrew \<longrightarrow> 0 < downloadSpeeds net ! i"
  shows "spec_successfulAttempts net = length (filter (\<lambda>s. 0 < s) (downloadSpeeds net))"
proof -
  have pos: "0 < downloadSample (fetched net i) \<longleftrightarrow> fetched net i \<noteq> DownloadThrew" if "i < 3" for i
    using assms that by (auto simp: nth_downloadSpeeds zero_jsnum_def)
  have "filter (\<lambda>s. 0 < s) (downloadSpeeds net) =
          map (\<lambda>i. downloadSample (fetched net i)) (filter (\<lambda>i. 0 < downloadSample (fetched net i)) [0..<3])"
    by (simp add: downloadSpeeds_map filter_map comp_def)
  also have "filter (\<lambda>i. 0 < downloadSample (fetched net i)) [0..<3] =
               filter (\<lambda>i. fetched net i \<noteq> DownloadThrew) [0..<3]"
    by (rule filter_cong) (auto simp: pos)
  finally show ?thesis
    by (simp add: spec_successfulAttempts_def)
qed

text \<open>
  C2, as amended. A download attempt that threw contributes the throughput 0. The
  average is the sum of the three attempt throughputs over the number of attempts whose
  throughput is greater than 0, with a floor of 1, and the result's \<open>download\<close> is that
  average at two decimals. If all three attempts threw, \<open>download\<close> is 0; if one attempt
  measured 100 Mbps and the other two threw, \<open>download\<close> is 100. The divisor is the
  number of successful attempts whenever every successful attempt measured more than 0.
\<close>

theorem download_average:
  "avgDownload net =
     (downloadSpeeds net ! 0 + downloadSpeeds net ! 1 + downloadSpeeds net ! 2)
       / Num (real (max 1 (card {i. i < 3 \<and> 0 < downloadSpeeds net ! i})))
   \<and> download (runSpeedTest net) = toFixed 2 (avgDownload net)
   \<and> (\<forall>i<3. fetched net i = DownloadThrew \<longrightarrow> downloadSpeeds net ! i = 0)
   \<and> ((\<forall>i<3. fetched net i = DownloadThrew) \<longrightarrow> download (runSpeedTest net) = 0)
   \<and> (\<forall>i<3. downloadSpeeds net ! i = Num 100 \<and> (\<forall>j<3. j \<noteq> i \<longrightarrow> fetched net j = DownloadThrew)
          \<longrightarrow> download (runSpeedTest net) = Num 100)
   \<and> ((\<forall>i<3. fetched net i \<noteq> DownloadThrew \<longrightarrow> 0 < downloadSpeeds net ! i)
          \<longrightarrow> avgDownload net = spec_avgDownload net)"
proof -
  have avg: "avgDownload net =
     (downloadSpeeds net ! 0 + downloadSpeeds net ! 1 + downloadSpeeds net ! 2)
       / Num (real (max 1 (card {i. i < 3 \<and> 0 < downloadSpeeds net ! i})))"
    by (simp only: avgDownload_def sum_downloadSpeeds downloadDenominator_card)
  have field: "download (runSpeedTest net) = toFixed 2 (avgDownload net)"
    by (simp add: runSpeedTest_def)
  have zero: "\<forall>i<3. fetched net i = DownloadThrew \<longrightarrow> downloadSpeeds net ! i = 0"
    by (simp add: nth_downloadSpeeds)
  have none: "(\<forall>i<3. fetched net i = DownloadThrew) \<longrightarrow> download (runSpeedTest net) = 0"
    by (simp add: field all_throw_avgDownload toFixed_zero)
  have one: "\<forall>i<3. downloadSpeeds net ! i = Num 100 \<and> (\<forall>j<3. j \<noteq> i \<longrightarrow> fetched net j = DownloadThrew)
          \<longrightarrow> download (runSpeedTest net) = Num 100"
    by (simp add: field single_100_avgDownload toFixed_100)
  have spec: "(\<forall>i<3. fetched net i \<noteq> DownloadThrew \<longrightarrow> 0 < downloadSpeeds net ! i)
          \<longrightarrow> avgDownload net = spec_avgDownload net"
    by (simp add: avgDownload_def spec_avgDownload_def downloadDenominator_def
        spec_successfulAttempts_filter)
  from avg field zero none one spec show ?thesis
    by (intro conjI)
qed

text \<open>
  C2 as stated fails: with one attempt at 100 Mbps, one answered by an empty body and
  one that threw, two attempts succeeded, but the code divides the sum 100 by 1.
\<close>

theorem download_average_counterexample:
  "avgDownload emptyBody = Num 100 \<and> spec_avgDownload emptyBody = Num 50
   \<and> download (runSpeedTest emptyBody) = Num 100
   \<and> avgDownload emptyBody \<noteq> spec_avgDownload emptyBody"
proof -
  have speeds: "downloadSpeeds emptyBody = [Num 100, Num 0, Num 0]"
    by (simp add: downloadSpeeds_list emptyBody_def zero_jsnum_def)
  have avg: "avgDownload emptyBody = Num 100"
    by (simp add: avgDownload_def downloadDenominator_def speeds zero_jsnum_def)
  have "spec_successfulAttempts emptyBody = 2"
    by (simp add: spec_successfulAttempts_def upt_0_3 emptyBody_def)
  then have spec: "spec_avgDownload emptyBody = Num 50"
    by (simp add: spec_avgDownload_def speeds zero_jsnum_def)
  show ?thesis
    by (simp add: avg spec runSpeedTest_def toFixed_100)
qed

theorem download_average_witness:
  "avgDownload flaky = Num 100 \<and> download (runSpeedTest flaky) = Num 100
   \<and> download (runSpeedTest outage) = 0 \<and> avgDownload flaky = spec_avgDownload flaky"
proof -
  have speeds: "downloadSpeeds flaky = [Num 0, Num 100, Num 0]"
    by (simp add: downloadSpeeds_list flaky_def zero_jsnum_def)
  have "downloadSpeeds flaky ! 1 = Num 100"
    by (simp add: speeds)
  moreover have "\<forall>j<3. j \<noteq> 1 \<longrightarrow> fetched flaky j = DownloadThrew"
    by (simp add: flaky_def)
  ultimately have hit:
    "downloadSpeeds flaky ! 1 = Num 100 \<and> (\<forall>j<3. j \<noteq> 1 \<longrightarrow> fetched flaky j = DownloadThrew)"
    by (rule conjI)
  have out: "\<forall>i<3. fetched outage i = DownloadThrew"
    by (simp add: outage_def)
  have pos: "\<forall>i<3. fetched flaky i \<noteq> DownloadThrew \<longrightarrow> 0 < downloadSpeeds flaky ! i"
    by (auto simp: nth_downloadSpeeds flaky_def zero_jsnum_def split: if_splits)
  from download_average [of flaky] have
    "\<forall>i<3. downloadSpeeds flaky ! i = Num 100 \<and> (\<forall>j<3. j \<noteq> i \<longrightarrow> fetched flaky j = DownloadThrew)
          \<longrightarrow> download (runSpeedTest flaky) = Num 100"
    by blast
  moreover have "(1::nat) < 3"
    by simp
  ultimately have "download (runSpeedTest flaky) = Num 100"
    using hit by blast
  moreover have "download (runSpeedTest outage) = 0"
    using download_average [of outage] out by blast
  moreover have "avgDownload flaky = spec_avgDownload flaky"
    using download_average [of flaky] pos by blast
  moreover have "avgDownload flaky = Num 100"
    by (simp add: avgDownload_def downloadDenominator_def speeds zero_jsnum_def)
  ultimately show ?thesis
    by simp
qed


text \<open>
  C9. The throughput recorded for a successful download attempt is
  \<open>(bytes * 8) / 1048576 / seconds\<close>, where \<open>bytes\<close> is the size of the received blob and
  \<open>seconds\<close> the time between the two clock readings around the request and the body,
  in seconds. The last division is JavaScript's; for a positive elapsed time it is the
  quotient of the reals.
\<close>

theorem download_throughput_formula:
  assumes "i < 3" and "fetched net i = Downloaded start finish n"
  shows "downloadSpeeds net ! i = Num (real n * 8) / Num 1048576 / (Num (finish - start) / Num 1000)
         \<and> (start < finish \<longrightarrow>
              downloadSpeeds net ! i = Num (real n * 8 / 1048576 / ((finish - start) / 1000)))"
  using assms by (simp add: nth_downloadSpeeds)

theorem download_throughput_formula_witness:
  "downloadSpeeds flaky ! 1 = Num (real 13107200 * 8 / 1048576 / ((2000 - 1000) / 1000))
   \<and> downloadSpeeds flaky ! 1 = Num 100"
proof -
  have "(1::nat) < 3" and "fetched flaky 1 = Downloaded 1000 2000 13107200" and "(1000::real) < 2000"
    by (simp_all add: flaky_def)
  from download_throughput_formula [OF this(1,2)] this(3) show ?thesis
    by simp
qed

lemma downloadSpeeds_cong:
  assumes "\<And>i. i < 3 \<Longrightarrow> downloadSample (fetched net' i) = downloadSample (fetched net i)"
  shows "downloadSpeeds net' = downloadSpeeds net"
  using assms by (simp add: downloadSpeeds_map)

text \<open>
  C10. The divisor of the download average counts the attempts whose recorded throughput
  is greater than 0, not the attempts that succeeded. A successful attempt that recorded
  exactly 0 (an empty body received in a positive time does) is therefore left out like
  a failed one: replacing it by a failed attempt changes neither the recorded
  throughputs, nor the divisor, nor the average.
\<close>

theorem zero_throughput_excluded:
  "downloadDenominator net = max 1 (card {i. i < 3 \<and> 0 < downloadSpeeds net ! i})
   \<and> (\<forall>i<3. downloadSpeeds net ! i = 0 \<longrightarrow>
         downloadSpeeds (net\<lparr>fetched := (fetched net)(i := DownloadThrew)\<rparr>) = downloadSpeeds net
         \<and> downloadDenominator (net\<lparr>fetched := (fetched net)(i := DownloadThrew)\<rparr>) = downloadDenominator net
         \<and> avgDownload (net\<lparr>fetched := (fetched net)(i := DownloadThrew)\<rparr>) = avgDownload net)
   \<and> (\<forall>start finish. start < finish \<longrightarrow> downloadSample (Downloaded start finish 0) = 0)"
proof -
  have same: "downloadSpeeds (net\<lparr>fetched := (fetched net)(i := DownloadThrew)\<rparr>) = downloadSpeeds net"
    if "i < 3" "downloadSpeeds net ! i = 0" for i
  proof (rule downloadSpeeds_cong)
    fix j :: nat
    assume "j < 3"
    from that have "downloadSample (fetched net i) = 0"
      by (simp add: nth_downloadSpeeds)
    then show "downloadSample (fetched (net\<lparr>fetched := (fetched net)(i := DownloadThrew)\<rparr>) j)
                 = downloadSample (fetched net j)"
      by simp
  qed
  have empty: "\<forall>start finish. start < finish \<longrightarrow> downloadSample (Downloaded start finish 0) = 0"
    by (simp add: zero_jsnum_def)
  from same empty show ?thesis
    by (simp add: downloadDenominator_card avgDownload_def downloadDenominator_def)
qed

theorem zero_throughput_excluded_witness:
  "downloadDenominator emptyBody = 1 \<and> spec_successfulAttempts emptyBody = 2
   \<and> avgDownload (emptyBody\<lparr>fetched := (fetched emptyBody)(1 := DownloadThrew)\<rparr>) = avgDownload emptyBody"
proof -
  have speeds: "downloadSpeeds emptyBody = [Num 100, Num 0, Num 0]"
    by (simp add: downloadSpeeds_list emptyBody_def zero_jsnum_def)
  have den: "downloadDenominator emptyBody = 1"
    by (simp add: downloadDenominator_def speeds zero_jsnum_def)
  have succ: "spec_successfulAttempts emptyBody = 2"
    by (simp add: spec_successfulAttempts_def upt_0_3 emptyBody_def)
  have "(1::nat) < 3" and "downloadSpeeds emptyBody ! 1 = 0"
    by (simp_all add: speeds zero_jsnum_def)
  with zero_throughput_excluded [of emptyBody] have
    "avgDownload (emptyBody\<lparr>fetched := (fetched emptyBody)(1 := DownloadThrew)\<rparr>) = avgDownload emptyBody"
    by blast
  with den succ show ?thesis
    by simp
qed

text \<open>
  C1, at an input where it fails: when a download returns within one reading of the
  clock, the elapsed time is 0, the division gives \<open>Infinity\<close>, and the result's
  \<open>download\<close> is not finite.
\<close>

theorem zero_duration_download_not_finite:
  "download (runSpeedTest coarseClock) = PosInf \<and> \<not> isFinite (download (runSpeedTest coarseClock))"
proof -
  have speeds: "downloadSpeeds coarseClock = [PosInf, Num (46875 / 1024), Num (46875 / 1024)]"
    by (simp add: downloadSpeeds_list coarseClock_def)
  have "avgDownload coarseClock = PosInf"
    by (simp add: avgDownload_def downloadDenominator_def speeds zero_jsnum_def)
  then show ?thesis
    by (simp add: runSpeedTest_def toFixed_def)
qed

section \<open>The upload phase\<close>

lemma uploadSpeeds_list:
  "uploadSpeeds net =
     [uploadSample (avgDownload net) (posted net 0), uploadSample (avgDownload net) (posted net 1)]"
  by (simp add: uploadSpeeds_map upt_0_2)

lemma nth_uploadSpeeds:
  "i < 2 \<Longrightarrow> uploadSpeeds net ! i = uploadSample (avgDownload net) (posted net i)"
  by (simp add: uploadSpeeds_map)

lemma uploadSample_cases:
  "uploadSample avgDl p =
     (case p of
        Responded start finish ok \<Rightarrow>
          if ok then Num 8 / Num ((finish - start) / 1000) else avgDl * Num (4 / 10)
      | UploadThrew \<Rightarrow> avgDl * Num (4 / 10))"
  by (cases p) (simp_all add: uploadSize_def)

text \<open>
  C4. The upload phase has exactly two attempts. An attempt that got a response with a
  success status records the measured throughput (the 8 megabits of the payload over the
  elapsed seconds); an attempt that threw or got a response with another status records
  the estimate \<open>avgDownload * 0.4\<close>. The average is the sum of the two recorded values
  over 2, and the result's \<open>upload\<close> is that average at two decimals.
\<close>

theorem upload_phase:
  "length (uploadSpeeds net) = 2
   \<and> (\<forall>i<2. uploadSpeeds net ! i =
         (case posted net i of
            Responded start finish ok \<Rightarrow>
              if ok then Num 8 / Num ((finish - start) / 1000) else avgDownload net * Num (4 / 10)
          | UploadThrew \<Rightarrow> avgDownload net * Num (4 / 10)))
   \<and> avgUpload net = (uploadSpeeds net ! 0 + uploadSpeeds net ! 1) / Num 2
   \<and> upload (runSpeedTest net) = toFixed 2 (avgUpload net)"
proof -
  have len: "length (uploadSpeeds net) = 2"
    by (simp add: uploadSpeeds_map)
  have each: "\<forall>i<2. uploadSpeeds net ! i =
         (case posted net i of
            Responded start finish ok \<Rightarrow>
              if ok then Num 8 / Num ((finish - start) / 1000) else avgDownload net * Num (4 / 10)
          | UploadThrew \<Rightarrow> avgDownload net * Num (4 / 10))"
  proof (intro allI impI)
    fix i :: nat
    assume "i < 2"
    then show "uploadSpeeds net ! i =
         (case posted net i of
            Responded start finish ok \<Rightarrow>
              if ok then Num 8 / Num ((finish - start) / 1000) else avgDownload net * Num (4 / 10)
          | UploadThrew \<Rightarrow> avgDownload net * Num (4 / 10))"
      by (simp only: nth_uploadSpeeds uploadSample_cases)
  qed
  have avg: "avgUpload net = (uploadSpeeds net ! 0 + uploadSpeeds net ! 1) / Num 2"
    by (simp add: avgUpload_def uploadSpeeds_list zero_plus_jsnum)
  have field: "upload (runSpeedTest net) = toFixed 2 (avgUpload net)"
    by (simp add: runSpeedTest_def)
  from len each avg field show ?thesis
    by (intro conjI)
qed

theorem upload_phase_witness:
  "uploadSpeeds flaky = [Num 8, Num 40] \<and> avgUpload flaky = Num 24
   \<and> upload (runSpeedTest flaky) = Num 24"
proof -
  have dl: "avgDownload flaky = Num 100"
    by (simp add: avgDownload_def downloadDenominator_def downloadSpeeds_list flaky_def zero_jsnum_def)
  have p0: "posted flaky 0 = Responded 3000 4000 True"
    and p1: "posted flaky 1 = Responded 4000 4500 False"
    by (simp_all add: flaky_def)
  from upload_phase [of flaky] have
    len: "length (uploadSpeeds flaky) = 2"
    and each: "\<forall>i<2. uploadSpeeds flaky ! i =
         (case posted flaky i of
            Responded start finish ok \<Rightarrow>
              if ok then Num 8 / Num ((finish - start) / 1000) else avgDownload flaky * Num (4 / 10)
          | UploadThrew \<Rightarrow> avgDownload flaky * Num (4 / 10))"
    and avg: "avgUpload flaky = (uploadSpeeds flaky ! 0 + uploadSpeeds flaky ! 1) / Num 2"
    and field: "upload (runSpeedTest flaky) = toFixed 2 (avgUpload flaky)"
    by blast+
  have u0: "uploadSpeeds flaky ! 0 = Num 8"
    using each [rule_format, of 0] unfolding p0 by simp
  have u1: "uploadSpeeds flaky ! 1 = Num 40"
    using each [rule_format, of 1] unfolding p1 dl by simp
  have list: "uploadSpeeds flaky = [Num 8, Num 40]"
    using len u0 u1 by (cases "uploadSpeeds flaky"; cases "tl (uploadSpeeds flaky)") auto
  have a: "avgUpload flaky = Num 24"
    unfolding avg u0 u1 by simp
  show ?thesis
    by (simp add: list a field toFixed_def)
qed


section \<open>The assembled result\<close>

text \<open>
  When the clock does not run backwards, \<^verbatim>\<open>Math.random()\<close> lies in \<open>[0, 1)\<close> and every
  transfer that succeeded took a positive time on the clock, all five fields of the
  result are finite and the four metrics are not negative. A total outage is such a run.
\<close>

lemma toFixed_nonneg:
  assumes "0 \<le> r"
  shows "\<exists>r'. toFixed d (Num r) = Num r' \<and> 0 \<le> r'"
proof (cases "10 ^ 21 \<le> \<bar>r\<bar>")
  case True
  with assms show ?thesis
    by (simp add: toFixed_def)
next
  case False
  from assms have "0 \<le> \<bar>r\<bar> * 10 ^ d + 1 / 2"
    by simp
  then have "0 \<le> \<lfloor>\<bar>r\<bar> * 10 ^ d + 1 / 2\<rfloor>"
    by simp
  then have "0 \<le> sgn r * real_of_int \<lfloor>\<bar>r\<bar> * 10 ^ d + 1 / 2\<rfloor> / 10 ^ d"
    using assms by (simp add: sgn_if)
  with False show ?thesis
    by (simp add: toFixed_def)
qed

lemma latency_phase_values:
  "avgLatency net = Num (sum_list (map (\<lambda>i. latencyMs (ping net i)) [0..<5]) / 5)
   \<and> latencyJitter net =
       Num (Max (set (map (\<lambda>i. latencyMs (ping net i)) [0..<5]))
            - Min (set (map (\<lambda>i. latencyMs (ping net i)) [0..<5])))"
proof -
  have ne: "map (\<lambda>i. latencyMs (ping net i)) [0..<5] \<noteq> []"
    by (simp add: upt_0_5)
  show ?thesis
    by (simp only: avgLatency_def latencyJitter_def latencies_Num Math_max_Num [OF ne]
        Math_min_Num [OF ne] zero_jsnum_def foldl_plus_Num) simp
qed

lemma latency_finite_nonneg:
  assumes clock: "\<forall>i<5. \<forall>s f. ping net i = PingReturned s f \<longrightarrow> s \<le> f"
    and rnd: "\<forall>i<5. \<forall>r. ping net i = PingThrew r \<longrightarrow> 0 \<le> r \<and> r < 1"
  shows "\<exists>l j. avgLatency net = Num l \<and> latencyJitter net = Num j \<and> 0 \<le> l \<and> 0 \<le> j"
proof -
  define vs where "vs = map (\<lambda>i. latencyMs (ping net i)) [0..<5]"
  have nonneg: "0 \<le> latencyMs (ping net i)" if "i < 5" for i
  proof (cases "ping net i")
    case (PingReturned s f)
    with clock that show ?thesis by simp
  next
    case (PingThrew r)
    with rnd that have "0 \<le> r" by blast
    with PingThrew show ?thesis by simp
  qed
  have "\<forall>v \<in> set vs. 0 \<le> v"
    by (auto simp: vs_def nonneg)
  then have "0 \<le> sum_list vs"
    by (simp add: sum_list_nonneg)
  then have l: "0 \<le> sum_list vs / 5"
    by simp
  have "vs \<noteq> []"
    by (simp add: vs_def upt_0_5)
  then have "Min (set vs) \<le> Max (set vs)"
    by (simp add: Min_le_iff ex_in_conv)
  then have j: "0 \<le> Max (set vs) - Min (set vs)"
    by simp
  from latency_phase_values [of net] have
    "avgLatency net = Num (sum_list vs / 5)"
    and "latencyJitter net = Num (Max (set vs) - Min (set vs))"
    by (simp_all only: vs_def)
  with l j show ?thesis
    by blast
qed

lemma downloadSample_finite:
  assumes "\<forall>s f n. p = Downloaded s f n \<longrightarrow> s < f"
  shows "\<exists>v. downloadSample p = Num v \<and> 0 \<le> v"
  using assms by (cases p) (auto simp: zero_jsnum_def)

lemma avgDownload_finite:
  assumes dl: "\<forall>i<3. \<forall>s f n. fetched net i = Downloaded s f n \<longrightarrow> s < f"
  shows "\<exists>d. avgDownload net = Num d \<and> 0 \<le> d"
proof -
  have "\<exists>v. downloadSample (fetched net i) = Num v \<and> 0 \<le> v" if "i < 3" for i
    using dl that by (intro downloadSample_finite) blast
  from this [of 0] this [of 1] this [of 2] obtain a b c where
    abc: "downloadSample (fetched net 0) = Num a" "downloadSample (fetched net 1) = Num b"
      "downloadSample (fetched net 2) = Num c" and pos: "0 \<le> a" "0 \<le> b" "0 \<le> c"
    by auto
  have speeds: "downloadSpeeds net = [Num a, Num b, Num c]"
    by (simp only: downloadSpeeds_list abc)
  define den where "den = downloadDenominator net"
  have den: "0 < real den"
    by (simp add: den_def downloadDenominator_def)
  have "avgDownload net = Num ((a + b + c) / real den)"
    using den by (simp add: avgDownload_def speeds zero_jsnum_def flip: den_def)
  moreover have "0 \<le> (a + b + c) / real den"
    using pos den by simp
  ultimately show ?thesis
    by blast
qed

lemma uploadSample_finite:
  assumes d: "0 \<le> d" and ok: "\<forall>s f. p = Responded s f True \<longrightarrow> s < f"
  shows "\<exists>v. uploadSample (Num d) p = Num v \<and> 0 \<le> v"
proof -
  have est: "uploadSample (Num d) q = Num (d * (4 / 10))"
    if "q = UploadThrew \<or> (\<exists>s f. q = Responded s f False)" for q
    using that by auto
  have nonneg: "0 \<le> d * (4 / 10)"
    using d by simp
  show ?thesis
  proof (cases p)
    case (Responded s f okay)
    show ?thesis
    proof (cases okay)
      case True
      with Responded ok have "s < f" by simp
      then have "uploadSample (Num d) p = Num (8 / ((f - s) / 1000))" and "0 \<le> 8 / ((f - s) / 1000)"
        using Responded True by (simp_all add: uploadSize_def)
      then show ?thesis by blast
    next
      case False
      with Responded est [of p] nonneg show ?thesis by blast
    qed
  next
    case UploadThrew
    with est [of p] nonneg show ?thesis by blast
  qed
qed

lemma avgUpload_finite:
  assumes d: "avgDownload net = Num d" "0 \<le> d"
    and ul: "\<forall>i<2. \<forall>s f. posted net i = Responded s f True \<longrightarrow> s < f"
  shows "\<exists>u. avgUpload net = Num u \<and> 0 \<le> u"
proof -
  have "\<exists>v. uploadSample (Num d) (posted net i) = Num v \<and> 0 \<le> v" if "i < 2" for i
    using d(2) ul that by (intro uploadSample_finite) blast+
  from this [of 0] this [of 1] obtain a b where
    ab: "uploadSample (Num d) (posted net 0) = Num a" "uploadSample (Num d) (posted net 1) = Num b"
    and pos: "0 \<le> a" "0 \<le> b"
    by auto
  have speeds: "uploadSpeeds net = [Num a, Num b]"
    by (simp only: uploadSpeeds_list d(1) ab)
  have "avgUpload net = Num ((a + b) / 2)"
    by (simp add: avgUpload_def speeds zero_jsnum_def)
  moreover have "0 \<le> (a + b) / 2"
    using pos by simp
  ultimately show ?thesis
    by blast
qed

lemma runSpeedTest_finite_nonneg:
  assumes clock: "\<forall>i<5. \<forall>s f. ping net i = PingReturned s f \<longrightarrow> s \<le> f"
    and rnd: "\<forall>i<5. \<forall>r. ping net i = PingThrew r \<longrightarrow> 0 \<le> r \<and> r < 1"
    and dl: "\<forall>i<3. \<forall>s f n. fetched net i = Downloaded s f n \<longrightarrow> s < f"
    and ul: "\<forall>i<2. \<forall>s f. posted net i = Responded s f True \<longrightarrow> s < f"
  shows "\<exists>t d u l j.
           runSpeedTest net =
             \<lparr> timestamp = Num t, download = Num d, upload = Num u, latency = Num l, jitter = Num j \<rparr>
           \<and> 0 \<le> d \<and> 0 \<le> u \<and> 0 \<le> l \<and> 0 \<le> j"
proof -
  from latency_finite_nonneg [OF clock rnd] obtain l j where
    lj: "avgLatency net = Num l" "latencyJitter net = Num j" "0 \<le> l" "0 \<le> j"
    by blast
  from avgDownload_finite [OF dl] obtain d where d: "avgDownload net = Num d" "0 \<le> d"
    by blast
  from avgUpload_finite [OF d ul] obtain u where u: "avgUpload net = Num u" "0 \<le> u"
    by blast
  from toFixed_nonneg [OF d(2)] obtain d' where d': "toFixed 2 (Num d) = Num d'" "0 \<le> d'"
    by blast
  from toFixed_nonneg [OF u(2)] obtain u' where u': "toFixed 2 (Num u) = Num u'" "0 \<le> u'"
    by blast
  from toFixed_nonneg [OF lj(3)] obtain l' where l': "toFixed 1 (Num l) = Num l'" "0 \<le> l'"
    by blast
  from toFixed_nonneg [OF lj(4)] obtain j' where j': "toFixed 1 (Num j) = Num j'" "0 \<le> j'"
    by blast
  have "runSpeedTest net =
          \<lparr> timestamp = Num (real_of_int (date_now net)), download = Num d', upload = Num u',
            latency = Num l', jitter = Num j' \<rparr>"
    unfolding runSpeedTest_def lj d u d' u' l' j' by (rule refl)
  with d' u' l' j' show ?thesis
    by blast
qed

lemma outage_result:
  "runSpeedTest outage =
     \<lparr> timestamp = Num 1700000000000, download = Num 0, upload = Num 0, latency = Num 25,
       jitter = Num 0 \<rparr>"
  by (simp add: runSpeedTest_def avgLatency_def latencyJitter_def latencies_map upt_0_5
      avgDownload_def downloadDenominator_def downloadSpeeds_list avgUpload_def uploadSpeeds_list
      Math_max_def Math_min_def max_step_def min_step_def
      outage_def zero_jsnum_def toFixed_def)

section \<open>The insight service\<close>

text \<open>
  C8. For the empty history the insight service returns the fixed triple with status
  \<open>fair\<close>, the summary "Insufficient data to analyze." and the one recommendation "Keep
  monitoring to gather trends.", and sends nothing to the collaborator, whatever the
  collaborator and the parser would do.
\<close>

theorem insights_empty_history:
  "getNetworkInsights generateContent JSON_parse [] =
     (Triple \<lparr> status = Fair, summary = ''Insufficient data to analyze.'',
               recommendations = [''Keep monitoring to gather trends.''] \<rparr>, [])"
  by (simp add: getNetworkInsights_def insufficientData_def)

theorem insights_empty_history_witness:
  "getNetworkInsights rejecting parseNullOnly [] = (Triple insufficientData, [])
   \<and> snd (getNetworkInsights rejecting parseNullOnly []) = []"
  using insights_empty_history [of rejecting parseNullOnly]
  by (simp add: insufficientData_def)

lemma insightsReturned_history: "history (insightsReturned s) = history s"
  by (simp add: insightsReturned_def split: list.split cycle.split)

lemma insightsReturned_stored: "omnispeed_history (insightsReturned s) = omnispeed_history s"
  by (simp add: insightsReturned_def split: list.split cycle.split)

text \<open>
  C7. When the collaborator is called (the history is not empty) and fails, by rejecting
  the call, by a response without text or with the empty text, or by a text that
  \<^verbatim>\<open>JSON.parse\<close> rejects after trimming, the insight service returns the fixed triple
  with status \<open>good\<close>, the summary "Unable to connect to AI analyzer at the moment." and
  the one recommendation "Verify your ISP plan if speeds seem low."; no error leaves it.
  Storing the answer changes neither the history nor its persisted copy.
\<close>

theorem insights_collaborator_failure:
  assumes nonempty: "hist \<noteq> []"
    and failure:
      "generateContent (buildPrompt hist) = Rejected
       \<or> generateContent (buildPrompt hist) = Response None
       \<or> generateContent (buildPrompt hist) = Response (Some [])
       \<or> (\<exists>t. generateContent (buildPrompt hist) = Response (Some t) \<and> JSON_parse (trim t) = None)"
  shows "getNetworkInsights generateContent JSON_parse hist =
           (Triple \<lparr> status = Good, summary = ''Unable to connect to AI analyzer at the moment.'',
                     recommendations = [''Verify your ISP plan if speeds seem low.''] \<rparr>,
            [buildPrompt hist])
         \<and> history (insightsReturned s) = history s
         \<and> omnispeed_history (insightsReturned s) = omnispeed_history s"
proof -
  have "getNetworkInsights generateContent JSON_parse hist = (Triple unableToConnect, [buildPrompt hist])"
    using nonempty failure
    by (auto simp: getNetworkInsights_def Let_def split: ai_response.split option.split)
  then show ?thesis
    by (simp add: unableToConnect_def insightsReturned_history insightsReturned_stored)
qed

theorem insights_collaborator_failure_witness:
  "getNetworkInsights rejecting parseNullOnly [runSpeedTest outage] =
     (Triple unableToConnect, [buildPrompt [runSpeedTest outage]])
   \<and> getNetworkInsights silent parseNullOnly [runSpeedTest outage] =
     (Triple unableToConnect, [buildPrompt [runSpeedTest outage]])
   \<and> getNetworkInsights garbled parseNullOnly [runSpeedTest outage] =
     (Triple unableToConnect, [buildPrompt [runSpeedTest outage]])"
proof -
  have ne: "[runSpeedTest outage] \<noteq> []"
    by simp
  have "trim '' <html>502 Bad Gateway</html> '' = ''<html>502 Bad Gateway</html>''"
    by (simp add: trim_def isWhiteSpace_def)
  then have bad: "\<exists>t. garbled (buildPrompt [runSpeedTest outage]) = Response (Some t)
                    \<and> parseNullOnly (trim t) = None"
    by (simp add: garbled_def parseNullOnly_def)
  show ?thesis
    using insights_collaborator_failure [of "[runSpeedTest outage]" rejecting parseNullOnly]
      insights_collaborator_failure [of "[runSpeedTest outage]" silent parseNullOnly]
      insights_collaborator_failure [of "[runSpeedTest outage]" garbled parseNullOnly]
      ne bad
    by (simp add: rejecting_def silent_def unableToConnect_def)
qed


section \<open>The scheduler\<close>

lemma length_slice_last: "length (slice_last n xs) \<le> n"
  by (simp add: slice_last_def)

lemma slice_last_append1:
  "n \<le> length xs \<Longrightarrow> slice_last (Suc n) (xs @ [x]) = slice_last n xs @ [x]"
  by (simp add: slice_last_def)

lemma performTest_running: "isTesting rendered \<Longrightarrow> performTest rendered s = s"
  by (simp add: performTest_def)

lemma manualTrigger_running: "isTesting s \<Longrightarrow> manualTrigger s = s"
  by (simp add: manualTrigger_def performTest_def)

lemma tick_running: "isTesting s \<Longrightarrow> tick now s = s\<lparr>timeLeft := max 0 (nextRun s - now)\<rparr>"
  by (simp add: tick_def performTest_def Let_def)

lemma probeReturned_awaiting:
  assumes "cycles s = AwaitingProbe captured # rest"
  shows "probeReturned g p result now s =
           s\<lparr> history := history s @ [result],
              omnispeed_history := slice_last 100 (history s @ [result]),
              nextRun := now + TEST_INTERVAL_MS,
              cycles := AwaitingInsights (fst (getNetworkInsights g p (captured @ [result]))) # rest \<rparr>"
  using assms by (simp add: probeReturned_def setHistory_def Let_def)

lemma step_stored_ok: "stored_ok s \<Longrightarrow> stored_ok (step e s)"
proof (cases e)
  case Click
  then show "stored_ok s \<Longrightarrow> stored_ok (step e s)"
    by (simp add: stored_ok_def manualTrigger_def performTest_def)
next
  case (Tick now)
  then show "stored_ok s \<Longrightarrow> stored_ok (step e s)"
    by (simp add: stored_ok_def tick_def performTest_def Let_def)
next
  case (ProbeReturned g p result now)
  then show "stored_ok s \<Longrightarrow> stored_ok (step e s)"
    by (simp add: stored_ok_def probeReturned_def setHistory_def Let_def
        split: list.split cycle.split)
next
  case InsightsReturned
  then show "stored_ok s \<Longrightarrow> stored_ok (step e s)"
    by (simp add: stored_ok_def insightsReturned_def split: list.split cycle.split)
qed

lemma step_flight_ok: "flight_ok s \<Longrightarrow> flight_ok (step e s)"
proof (cases e)
  case Click
  then show "flight_ok s \<Longrightarrow> flight_ok (step e s)"
    by (auto simp: flight_ok_def manualTrigger_def performTest_def)
next
  case (Tick now)
  then show "flight_ok s \<Longrightarrow> flight_ok (step e s)"
    by (auto simp: flight_ok_def tick_def performTest_def Let_def)
next
  case (ProbeReturned g p result now)
  then show "flight_ok s \<Longrightarrow> flight_ok (step e s)"
    by (auto simp: flight_ok_def probeReturned_def setHistory_def Let_def
        split: list.split cycle.split)
next
  case InsightsReturned
  then show "flight_ok s \<Longrightarrow> flight_ok (step e s)"
    by (auto simp: flight_ok_def insightsReturned_def split: list.split cycle.split)
qed

lemma run_stored_ok: "stored_ok s \<Longrightarrow> stored_ok (run events s)"
  by (induction events rule: rev_induct) (simp_all add: run_def step_stored_ok)

lemma run_flight_ok: "flight_ok s \<Longrightarrow> flight_ok (run events s)"
  by (induction events rule: rev_induct) (simp_all add: run_def step_flight_ok)

lemma mount_stored_ok: "stored_ok (mount saved now)"
  by (cases saved)
    (simp_all add: stored_ok_def mount_def firstRender_def performTest_def setHistory_def
      slice_last_def Let_def)

lemma mount_flight_ok: "flight_ok (mount saved now)"
  by (cases saved)
    (simp_all add: flight_ok_def mount_def firstRender_def performTest_def setHistory_def Let_def)

lemma reachable_invariants:
  "stored_ok (run events (mount saved now)) \<and> flight_ok (run events (mount saved now))"
  by (simp add: run_stored_ok run_flight_ok mount_stored_ok mount_flight_ok)

text \<open>
  C5, as amended. The persisted copy of the history never exceeds 100 entries: in every
  state reached from mounting it is the last 100 entries of the history held in memory,
  in the same order. When a probe cycle completes, its result is appended to the history
  in memory, which is not trimmed; once there are 99 earlier entries the persisted copy
  becomes the last 99 of them followed by the result, so that from the 101st entry on
  the oldest one is dropped from the persisted copy. If the history with the result is
  in timestamp order, so is the persisted copy.
\<close>

theorem persisted_history_bounded:
  "omnispeed_history (run events (mount saved now)) = slice_last 100 (history (run events (mount saved now)))
   \<and> length (omnispeed_history (run events (mount saved now))) \<le> 100
   \<and> (\<forall>captured rest. cycles s = AwaitingProbe captured # rest \<longrightarrow>
         history (probeReturned g p result t s) = history s @ [result]
         \<and> omnispeed_history (probeReturned g p result t s) = slice_last 100 (history s @ [result])
         \<and> (99 \<le> length (history s) \<longrightarrow>
              omnispeed_history (probeReturned g p result t s) = slice_last 99 (history s) @ [result])
         \<and> (sorted_wrt (\<lambda>a b. timestamp a \<le> timestamp b) (history s @ [result]) \<longrightarrow>
              sorted_wrt (\<lambda>a b. timestamp a \<le> timestamp b)
                (omnispeed_history (probeReturned g p result t s))))"
proof -
  have inv: "omnispeed_history (run events (mount saved now))
               = slice_last 100 (history (run events (mount saved now)))"
    using reachable_invariants [of events saved now] by (simp add: stored_ok_def)
  then have bound: "length (omnispeed_history (run events (mount saved now))) \<le> 100"
    by (simp add: length_slice_last)
  have app: "history (probeReturned g p result t s) = history s @ [result]
         \<and> omnispeed_history (probeReturned g p result t s) = slice_last 100 (history s @ [result])
         \<and> (99 \<le> length (history s) \<longrightarrow>
              omnispeed_history (probeReturned g p result t s) = slice_last 99 (history s) @ [result])
         \<and> (sorted_wrt (\<lambda>a b. timestamp a \<le> timestamp b) (history s @ [result]) \<longrightarrow>
              sorted_wrt (\<lambda>a b. timestamp a \<le> timestamp b)
                (omnispeed_history (probeReturned g p result t s)))"
    if "cycles s = AwaitingProbe captured # rest" for captured rest
  proof -
    have "slice_last 100 (history s @ [result]) = slice_last 99 (history s) @ [result]"
      if "99 \<le> length (history s)"
      using slice_last_append1 [OF that, of result] by simp
    moreover have "sorted_wrt (\<lambda>a b. timestamp a \<le> timestamp b) (slice_last 100 (history s @ [result]))"
      if "sorted_wrt (\<lambda>a b. timestamp a \<le> timestamp b) (history s @ [result])"
      unfolding slice_last_def using that by (rule sorted_wrt_drop)
    ultimately show ?thesis
      by (simp add: probeReturned_awaiting [OF \<open>cycles s = AwaitingProbe captured # rest\<close>])
  qed
  from inv bound app show ?thesis
    by blast
qed

text \<open>
  C5 as stated fails: mounted with 100 saved entries, the history in memory holds 101
  entries once the first probe cycle has returned.
\<close>

theorem history_exceeds_100_counterexample:
  "length (history mountedFull) = 100
   \<and> length (history (probeReturned rejecting parseNullOnly (runSpeedTest outage) 0 mountedFull)) = 101
   \<and> \<not> length (history (probeReturned rejecting parseNullOnly (runSpeedTest outage) 0 mountedFull)) \<le> 100"
proof -
  have h: "history mountedFull = hundredSaved" and c: "cycles mountedFull = [AwaitingProbe []]"
    by (simp_all add: mountedFull_def mount_def firstRender_def performTest_def setHistory_def Let_def)
  have len: "length hundredSaved = 100"
    by (simp add: hundredSaved_def)
  show ?thesis
    by (simp add: probeReturned_awaiting [OF c] h len)
qed

theorem persisted_history_bounded_witness:
  "cycles mountedFull = [AwaitingProbe []]
   \<and> history (probeReturned rejecting parseNullOnly (runSpeedTest outage) 0 mountedFull)
       = hundredSaved @ [runSpeedTest outage]
   \<and> length (omnispeed_history (probeReturned rejecting parseNullOnly (runSpeedTest outage) 0 mountedFull)) = 100
   \<and> omnispeed_history (probeReturned rejecting parseNullOnly (runSpeedTest outage) 0 mountedFull)
       = slice_last 99 hundredSaved @ [runSpeedTest outage]"
proof -
  have h: "history mountedFull = hundredSaved" and c: "cycles mountedFull = [AwaitingProbe []]"
    by (simp_all add: mountedFull_def mount_def firstRender_def performTest_def setHistory_def Let_def)
  have len: "length hundredSaved = 100"
    by (simp add: hundredSaved_def)
  from persisted_history_bounded [of "[]" None 0 mountedFull rejecting parseNullOnly "runSpeedTest outage" 0] c
  have "history (probeReturned rejecting parseNullOnly (runSpeedTest outage) 0 mountedFull)
          = history mountedFull @ [runSpeedTest outage]"
    and "99 \<le> length (history mountedFull) \<longrightarrow>
          omnispeed_history (probeReturned rejecting parseNullOnly (runSpeedTest outage) 0 mountedFull)
            = slice_last 99 (history mountedFull) @ [runSpeedTest outage]"
    by blast+
  then show ?thesis
    by (simp add: h c len slice_last_def)
qed

text \<open>
  C6. In every state reached from mounting at most one probe cycle is suspended, and one
  is suspended exactly when the in-progress flag is set. In any state with the flag set,
  a manual trigger leaves the state as it is, and a tick of the countdown only updates
  the displayed time left: it starts no cycle and changes neither the history nor the
  flag.
\<close>

theorem single_flight:
  "length (cycles (run events (mount saved now))) \<le> 1
   \<and> (isTesting (run events (mount saved now)) \<longleftrightarrow> cycles (run events (mount saved now)) \<noteq> [])
   \<and> (isTesting s \<longrightarrow>
        manualTrigger s = s
        \<and> tick t s = s\<lparr>timeLeft := max 0 (nextRun s - t)\<rparr>
        \<and> length (history (tick t s)) = length (history s)
        \<and> isTesting (tick t s)
        \<and> cycles (tick t s) = cycles s)"
proof -
  have "flight_ok (run events (mount saved now))"
    using reachable_invariants [of events saved now] by simp
  then show ?thesis
    by (simp add: flight_ok_def manualTrigger_running tick_running)
qed

theorem single_flight_witness:
  "isTesting (mount None 0)
   \<and> manualTrigger (mount None 0) = mount None 0
   \<and> cycles (tick 600000 (mount None 0)) = [AwaitingProbe []]
   \<and> history (tick 600000 (mount None 0)) = []"
proof -
  have running: "isTesting (mount None 0)" and c: "cycles (mount None 0) = [AwaitingProbe []]"
    and h: "history (mount None 0) = []"
    by (simp_all add: mount_def firstRender_def performTest_def Let_def)
  from single_flight [of "[]" None 0 "mount None 0" 600000] running
  have "manualTrigger (mount None 0) = mount None 0"
    and "cycles (tick 600000 (mount None 0)) = cycles (mount None 0)"
    and "length (history (tick 600000 (mount None 0))) = length (history (mount None 0))"
    by blast+
  with running c h show ?thesis
    by simp
qed

end
